theory Spec2Isabelle
  imports Main "HOL-Library.AList"
begin

section \<open>Python values, dictionaries and errors\<close>

text \<open>
  The values that tasks store and pass around.  \<open>PTimedelta\<close> counts seconds,
  \<open>PFunc\<close> is a reference to a named function (a trigger), \<open>PObj\<close> a reference to a
  task instance.  A dictionary is an association list with unique keys, in insertion
  order, as a Python \<open>dict\<close> is.
\<close>

datatype pyval =
    PNone
  | PBool bool
  | PInt int
  | PStr string
  | PTimedelta int
  | PFunc string
  | PObj nat
  | PDict "(string \<times> pyval) list"

type_synonym dict = "(string \<times> pyval) list"

text \<open>\<open>key in d\<close>, \<open>d.get(key, default)\<close>, \<open>d.pop(key, default)\<close> and \<open>d.update(e)\<close>.\<close>

definition dict_contains :: "dict \<Rightarrow> string \<Rightarrow> bool" where
  "dict_contains d k = (map_of d k \<noteq> None)"

definition dict_get :: "dict \<Rightarrow> string \<Rightarrow> pyval \<Rightarrow> pyval" where
  "dict_get d k dflt = (case map_of d k of None \<Rightarrow> dflt | Some v \<Rightarrow> v)"

definition dict_pop :: "dict \<Rightarrow> string option \<Rightarrow> pyval \<Rightarrow> pyval \<times> dict" where
  "dict_pop d key dflt =
     (case key of
        None \<Rightarrow> (dflt, d)
      | Some k \<Rightarrow> (case map_of d k of
                    None \<Rightarrow> (dflt, d)
                  | Some v \<Rightarrow> (v, AList.delete k d)))"

fun dict_update :: "dict \<Rightarrow> dict \<Rightarrow> dict" where
  "dict_update d [] = d"
| "dict_update d ((k, v) # e) = dict_update (AList.update k v d) e"

text \<open>
  The exceptions the modelled code raises.  A \<open>TypeError\<close> carries which check of
  \<open>inspect.Signature.bind\<close> (or of \<open>dict.update\<close>) failed, \<open>FAIL\<close> is
  \<open>prefect.signals.FAIL\<close> with its message.
\<close>

datatype type_error =
    MissingRequired string
  | TooManyPositional
  | MultipleValues string
  | UnexpectedKeyword string
  | NotAMapping
  | NotAString

datatype error =
    TypeError type_error
  | ValueError
  | KeyError string
  | AttributeError string
  | FAIL string

section \<open>Classes, instances and the world\<close>

text \<open>
  A parameter of a work function, as \<open>inspect.Parameter\<close> describes it: its name, its
  kind and its default (\<open>None\<close> stands for \<open>Parameter.empty\<close>).  The signatures considered
  are those with positional-or-keyword parameters and at most one \<open>**kwargs\<close> parameter.
\<close>

datatype kind = POSITIONAL_OR_KEYWORD | VAR_KEYWORD

record param =
  pname :: string
  pkind :: kind
  pdefault :: "pyval option"

text \<open>
  A class deriving from \<open>Task\<close>: \<open>type(self).__name__\<close> and the parameters its \<open>run\<close>
  method declares, \<open>self\<close> included.
\<close>

record pyclass =
  cls_name :: string
  run_decl :: "param list"

text \<open>The attributes \<open>Parameter.__init__\<close> adds to an instance.\<close>

record parameter_attrs =
  required :: bool
  default_value :: pyval

text \<open>
  An instance of \<open>Task\<close>.  \<open>task_id\<close> is the attribute \<open>_id\<close> behind the \<open>id\<close> property,
  \<open>task_prefect_version\<close> is \<open>_prefect_version\<close>, \<open>secrets\<close> is a reference to a
  dictionary object, and \<open>param_attrs\<close> is present on instances of \<open>Parameter\<close> only.
\<close>

record task =
  cls :: pyclass
  task_id :: string
  name :: string
  description :: pyval
  max_retries :: pyval
  retry_delay :: pyval
  timeout :: pyval
  trigger :: pyval
  secrets :: nat
  task_prefect_version :: string
  param_attrs :: "parameter_attrs option"

text \<open>
  Modelled from the spec: the flow container (\<open>prefect.flow.Flow\<close>) is not among the
  sources.  A flow owns its task nodes and its directed edges, each edge going from an
  upstream value to a downstream task under a parameter name.
\<close>

record flow =
  tasks :: "nat list"
  edges :: "(pyval \<times> nat \<times> string) list"

text \<open>
  The state the code works on.  Instances, dictionary objects and flows live in three
  stores and are referred to by their position there; a reference a program holds always
  denotes an allocated object, and nothing is ever collected (the registry of the source
  is a \<open>WeakValueDictionary\<close>, whose entries disappear with their tasks; here every task
  stays alive).  \<open>ctx_flow\<close> and \<open>ctx_parameters\<close> are the entries \<open>'flow'\<close> and
  \<open>'parameters'\<close> of \<open>prefect.context.Context\<close>, and \<open>prefect_version\<close> is
  \<open>prefect.__version__\<close>.

  Modelled from the spec: \<open>generate_uuid\<close> (\<open>prefect.utilities.ids\<close>) is not among the
  sources.  The tokens it issues are a parameter of the world, \<open>uuid_source\<close>, read
  at the counter \<open>uuid_count\<close>; that a token is unique is a hypothesis wherever it is
  needed.
\<close>

record world =
  objs :: "task list"
  dicts :: "dict list"
  flows :: "flow list"
  TASK_REGISTRY :: "string \<rightharpoonup> nat"
  uuid_source :: "nat \<Rightarrow> string"
  uuid_count :: nat
  prefect_version :: string
  ctx_flow :: "nat option"
  ctx_parameters :: "dict option"

definition generate_uuid :: "world \<Rightarrow> string \<times> world" where
  "generate_uuid w = (uuid_source w (uuid_count w), w\<lparr>uuid_count := Suc (uuid_count w)\<rparr>)"

text \<open>
  Modelled from the spec: \<open>generate_id()\<close> produces a universally-unique token.  For
  the tokens of a world this says that no two of them are equal and that none still to be
  issued is the identifier of an existing task.
\<close>

definition unique_tokens :: "world \<Rightarrow> bool" where
  "unique_tokens w =
     (inj (uuid_source w)
      \<and> (\<forall>n. uuid_count w \<le> n \<longrightarrow> uuid_source w n \<notin> task_id ` set (objs w)))"

section \<open>Identification\<close>

text \<open>\<open>Task.register\<close>: \<open>TASK_REGISTRY[self.id] = self\<close>.\<close>

definition register :: "world \<Rightarrow> nat \<Rightarrow> world" where
  "register w self = w\<lparr>TASK_REGISTRY := (TASK_REGISTRY w)(task_id (objs w ! self) \<mapsto> self)\<rparr>"

text \<open>The setter of \<open>Task.id\<close>: \<open>self._id = value; self.register()\<close>.\<close>

definition set_id :: "world \<Rightarrow> nat \<Rightarrow> string \<Rightarrow> world" where
  "set_id w self v =
     register (w\<lparr>objs := (objs w)[self := (objs w ! self)\<lparr>task_id := v\<rparr>]\<rparr>) self"

text \<open>\<open>Task.short_id\<close>: \<open>self._id[:8]\<close>.\<close>

definition short_id :: "task \<Rightarrow> string" where
  "short_id t = take 8 (task_id t)"

section \<open>Construction\<close>

text \<open>
  Modelled from the spec: \<open>Flow.add_task\<close> adds a node and is idempotent, and \<open>Flow()\<close>
  creates a new flow with no node and no edge.
\<close>

definition add_task :: "flow \<Rightarrow> nat \<Rightarrow> flow" where
  "add_task fl t = (if t \<in> set (tasks fl) then fl else fl\<lparr>tasks := tasks fl @ [t]\<rparr>)"

definition Flow_new :: "world \<Rightarrow> nat \<times> world" where
  "Flow_new w = (length (flows w), w\<lparr>flows := flows w @ [\<lparr>tasks = [], edges = []\<rparr>]\<rparr>)"

text \<open>
  \<open>secrets or {}\<close>: the given dictionary object when there is one and it is not empty,
  a new empty dictionary otherwise.
\<close>

definition secrets_or_empty :: "world \<Rightarrow> nat option \<Rightarrow> nat \<times> world" where
  "secrets_or_empty w s =
     (case s of
        None \<Rightarrow> (length (dicts w), w\<lparr>dicts := dicts w @ [[]]\<rparr>)
      | Some r \<Rightarrow>
          if dicts w ! r \<noteq> [] then (r, w)
          else (length (dicts w), w\<lparr>dicts := dicts w @ [[]]\<rparr>))"

text \<open>
  \<open>Task.__init__\<close>, together with the creation of the instance it initialises: the
  new instance is the next position of \<open>objs\<close>.  \<open>c\<close> is the class being instantiated and
  \<open>pa\<close> the attributes a subclass constructor has set before calling \<open>super().__init__\<close>.
  The arguments follow the source: \<open>name\<close>, \<open>id\<close>, \<open>description\<close>, \<open>max_retries\<close>,
  \<open>retry_delay\<close>, \<open>timeout\<close>, \<open>trigger\<close>, \<open>secrets\<close>.  The result is the new instance and
  the world after the constructor.  The constructor registers the instance twice, in
  the setter of \<open>id\<close> and by \<open>self.register()\<close>, under the same identifier; the model
  writes the entry once.  \<open>name or type(self).__name__\<close> takes the class name for a
  missing or empty name.  Modelled from the spec: a flow of the context, when there is
  one, counts as true in \<open>if flow\<close> and gets the task as a node.
\<close>

definition Task_init ::
  "world \<Rightarrow> pyclass \<Rightarrow> parameter_attrs option \<Rightarrow> string option \<Rightarrow> string option \<Rightarrow>
   pyval \<Rightarrow> pyval \<Rightarrow> pyval \<Rightarrow> pyval \<Rightarrow> pyval \<Rightarrow> nat option \<Rightarrow> nat \<times> world" where
  "Task_init w c pa nm id_arg descr retries delay tmo trig secr =
     (let self = length (objs w);
          (u, w1) = generate_uuid w;
          (s, w2) = secrets_or_empty w1 secr;
          t = \<lparr>cls = c,
               task_id = u,
               name = (case nm of
                         None \<Rightarrow> cls_name c
                       | Some n \<Rightarrow> if n = [] then cls_name c else n),
               description = descr,
               max_retries = retries,
               retry_delay = delay,
               timeout = tmo,
               trigger = (if trig = PNone then PFunc ''prefect.triggers.all_successful''
                          else trig),
               secrets = s,
               task_prefect_version = prefect_version w,
               param_attrs = pa\<rparr>;
          w3 = register (w2\<lparr>objs := objs w2 @ [t]\<rparr>) self;
          w4 = (case ctx_flow w3 of
                  None \<Rightarrow> w3
                | Some f \<Rightarrow> w3\<lparr>flows := (flows w3)[f := add_task (flows w3 ! f) self]\<rparr>)
      in (self, w4))"

text \<open>
  \<open>Parameter.__init__(self, name, default=None, required=True)\<close>: a default other than
  \<open>None\<close> makes the parameter not required; then \<open>super().__init__(name=name)\<close>, the
  other arguments of \<open>Task.__init__\<close> at their defaults.
\<close>

definition Parameter_init :: "world \<Rightarrow> pyclass \<Rightarrow> string \<Rightarrow> pyval \<Rightarrow> bool \<Rightarrow> nat \<times> world" where
  "Parameter_init w c nm dflt req =
     (let req1 = (if dflt \<noteq> PNone then False else req)
      in Task_init w c (Some \<lparr>required = req1, default_value = dflt\<rparr>) (Some nm) None
           PNone (PInt 0) (PTimedelta 60) PNone PNone None)"

section \<open>Copying\<close>

text \<open>
  \<open>Task.__setstate__\<close>: \<open>self.__dict__.update(state); self.register()\<close>.  The state is
  the attributes of an instance, and every attribute in it replaces the one of \<open>self\<close>;
  the attributes of \<open>Parameter\<close> stay as they are when the state has none, and the class
  of \<open>self\<close> is not an attribute and stays.
\<close>

definition setstate :: "world \<Rightarrow> nat \<Rightarrow> task \<Rightarrow> world" where
  "setstate w self state =
     register
       (w\<lparr>objs := (objs w)[self := state
           \<lparr>cls := cls (objs w ! self),
            param_attrs := (case param_attrs state of
                              None \<Rightarrow> param_attrs (objs w ! self)
                            | Some pa \<Rightarrow> Some pa)\<rparr>]\<rparr>)
       self"

text \<open>
  \<open>cls.__new__(cls)\<close>: an instance of the class on which no constructor has run.  It
  has no attribute yet; the record shows the attributes not yet set as empty.
\<close>

definition blank :: "pyclass \<Rightarrow> task" where
  "blank c =
     \<lparr>cls = c, task_id = [], name = [], description = PNone, max_retries = PNone,
      retry_delay = PNone, timeout = PNone, trigger = PNone, secrets = 0,
      task_prefect_version = [], param_attrs = None\<rparr>"

text \<open>
  \<open>copy.copy(x)\<close> of the standard library, on an instance whose class defines
  \<open>__setstate__\<close> and no \<open>__copy__\<close>: a new instance of the class of \<open>x\<close> is created
  without running \<open>__init__\<close>, and its \<open>__setstate__\<close> receives the attributes of \<open>x\<close>,
  the attribute values themselves being shared.  It is \<open>__setstate__\<close> that gives the new
  instance its attributes, and that registers it under the identifier of \<open>x\<close>.
\<close>

definition copy_copy :: "world \<Rightarrow> nat \<Rightarrow> nat \<times> world" where
  "copy_copy w x =
     (let y = length (objs w);
          w1 = w\<lparr>objs := objs w @ [blank (cls (objs w ! x))]\<rparr>
      in (y, setstate w1 y (objs w ! x)))"

text \<open>\<open>Task.copy\<close>.\<close>

definition copy :: "world \<Rightarrow> nat \<Rightarrow> nat \<times> world" where
  "copy w self =
     (let (new, w1) = copy_copy w self;
          (u, w2) = generate_uuid w1;
          w3 = set_id w2 new u;
          w4 = register w3 new
      in (new, w4))"

section \<open>Run\<close>

text \<open>
  \<open>inspect.signature\<close> of the bound method \<open>self.run\<close>: the first declared parameter is
  bound to the instance and dropped; a method that declares no parameter, or whose first
  parameter is \<open>**kwargs\<close>, has no valid signature (\<open>ValueError\<close>).
\<close>

fun inspect_signature :: "param list \<Rightarrow> error + param list" where
  "inspect_signature [] = Inl ValueError"
| "inspect_signature (p # ps) = (if pkind p = VAR_KEYWORD then Inl ValueError else Inr ps)"

text \<open>\<open>Task.inputs\<close>: \<open>tuple(inspect.signature(self.run).parameters.keys())\<close>.\<close>

definition inputs :: "task \<Rightarrow> error + string list" where
  "inputs t =
     (case inspect_signature (run_decl (cls t)) of
        Inl e \<Rightarrow> Inl e
      | Inr signature \<Rightarrow> Inr (map pname signature))"

text \<open>
  \<open>Parameter.run\<close>.  \<open>Context.get('parameters', {})\<close> is the mapping of the context, or an
  empty one.
\<close>

definition Parameter_run :: "world \<Rightarrow> task \<Rightarrow> error + pyval" where
  "Parameter_run w t =
     (case param_attrs t of
        None \<Rightarrow> Inl (AttributeError ''required'')
      | Some pa \<Rightarrow>
          (let params = (case ctx_parameters w of None \<Rightarrow> [] | Some d \<Rightarrow> d)
           in if required pa \<and> \<not> dict_contains params (name t)
              then Inl (FAIL (''Parameter '' @ [CHR 0x22] @ name t @ [CHR 0x22] @
                              '' was required but not provided.''))
              else Inr (dict_get params (name t) (default_value pa))))"

section \<open>Dependencies\<close>

text \<open>
  \<open>inspect.Signature.bind\<close> of the standard library, for the parameter kinds above.  Its
  first loop walks the positional arguments along the parameters; when the arguments
  run out it hands the parameters not yet bound to the second loop.
\<close>

fun bind_positional ::
  "param list \<Rightarrow> pyval list \<Rightarrow> dict \<Rightarrow> dict \<Rightarrow> error + (dict \<times> param list)" where
  "bind_positional [] [] kwargs arguments = Inr (arguments, [])"
| "bind_positional (p # ps) [] kwargs arguments =
     (if dict_contains kwargs (pname p) then Inr (arguments, p # ps)
      else if pkind p = VAR_KEYWORD \<or> pdefault p \<noteq> None then Inr (arguments, p # ps)
      else Inl (TypeError (MissingRequired (pname p))))"
| "bind_positional [] (a # as) kwargs arguments = Inl (TypeError TooManyPositional)"
| "bind_positional (p # ps) (a # as) kwargs arguments =
     (if pkind p = VAR_KEYWORD then Inl (TypeError TooManyPositional)
      else if dict_contains kwargs (pname p) then Inl (TypeError (MultipleValues (pname p)))
      else bind_positional ps as kwargs (AList.update (pname p) a arguments))"

text \<open>
  The second loop takes each remaining parameter's value out of the keyword arguments
  and remembers the \<open>**kwargs\<close> parameter.
\<close>

fun bind_keywords ::
  "param list \<Rightarrow> dict \<Rightarrow> dict \<Rightarrow> param option \<Rightarrow> error + (dict \<times> dict \<times> param option)" where
  "bind_keywords [] kwargs arguments kwargs_param = Inr (arguments, kwargs, kwargs_param)"
| "bind_keywords (p # ps) kwargs arguments kwargs_param =
     (if pkind p = VAR_KEYWORD then bind_keywords ps kwargs arguments (Some p)
      else (case map_of kwargs (pname p) of
              None \<Rightarrow>
                if pdefault p = None then Inl (TypeError (MissingRequired (pname p)))
                else bind_keywords ps kwargs arguments kwargs_param
            | Some v \<Rightarrow>
                bind_keywords ps (AList.delete (pname p) kwargs)
                  (AList.update (pname p) v arguments) kwargs_param))"

text \<open>
  What is left of the keyword arguments goes under the \<open>**kwargs\<close> parameter, or is an
  error when there is none.  The result is \<open>BoundArguments.arguments\<close>.
\<close>

definition bind :: "param list \<Rightarrow> pyval list \<Rightarrow> dict \<Rightarrow> error + dict" where
  "bind signature args kwargs =
     (case bind_positional signature args kwargs [] of
        Inl e \<Rightarrow> Inl e
      | Inr (arguments, rest) \<Rightarrow>
          (case bind_keywords rest kwargs arguments None of
             Inl e \<Rightarrow> Inl e
           | Inr (arguments1, kwargs1, kwargs_param) \<Rightarrow>
               (case kwargs1 of
                  [] \<Rightarrow> Inr arguments1
                | (k, v) # _ \<Rightarrow>
                    (case kwargs_param of
                       None \<Rightarrow> Inl (TypeError (UnexpectedKeyword k))
                     | Some kp \<Rightarrow> Inr (AList.update (pname kp) (PDict kwargs1) arguments1)))))"

text \<open>
  Modelled from the spec: \<open>get_var_kw_arg\<close> (\<open>prefect.utilities.functions\<close>) is not among
  the sources.  It gives the name of the variable-keyword capture parameter of the work
  function, or \<open>None\<close> when there is none.
\<close>

definition get_var_kw_arg :: "param list \<Rightarrow> string option" where
  "get_var_kw_arg signature =
     (case filter (\<lambda>p. pkind p = VAR_KEYWORD) signature of
        [] \<Rightarrow> None
      | p # _ \<Rightarrow> Some (pname p))"

text \<open>
  The first half of \<open>Task.__call__\<close>: the signature of \<open>self.run\<close>, the binding of the
  arguments, and \<open>callargs.update(callargs.pop(var_kw_arg, {}))\<close>.  The result is the
  \<open>callargs\<close> handed to the flow as \<open>keyword_results\<close>.
\<close>

definition call_bind :: "task \<Rightarrow> pyval list \<Rightarrow> dict \<Rightarrow> error + dict" where
  "call_bind t args kwargs =
     (case inspect_signature (run_decl (cls t)) of
        Inl e \<Rightarrow> Inl e
      | Inr signature \<Rightarrow>
          (case bind signature args kwargs of
             Inl e \<Rightarrow> Inl e
           | Inr callargs \<Rightarrow>
               (let var_kw_arg = get_var_kw_arg signature;
                    (popped, callargs1) = dict_pop callargs var_kw_arg (PDict [])
                in case popped of
                     PDict e \<Rightarrow> Inr (dict_update callargs1 e)
                   | _ \<Rightarrow> Inl (TypeError NotAMapping))))"

text \<open>
  The second half of \<open>Task.__call__\<close>: \<open>flow = Context.get('flow')\<close>, a new \<open>Flow()\<close> when
  that is \<open>None\<close>.  The result is the flow and the world in which \<open>set_dependencies\<close> is
  then called.
\<close>

definition resolve_flow :: "world \<Rightarrow> nat \<times> world" where
  "resolve_flow w = (case ctx_flow w of None \<Rightarrow> Flow_new w | Some f \<Rightarrow> (f, w))"

text \<open>
  \<open>Task.__call__\<close>.  An error of the binding leaves the call before any flow is looked
  up or created.  \<open>Flow.set_dependencies\<close> is not among the sources, so it is a
  parameter: any function of the world, the flow, the task and the binding map that
  raises or returns a value and a new world.  The call returns what it returns.
\<close>

definition call ::
  "(world \<Rightarrow> nat \<Rightarrow> nat \<Rightarrow> dict \<Rightarrow> error + (pyval \<times> world)) \<Rightarrow>
   world \<Rightarrow> nat \<Rightarrow> pyval list \<Rightarrow> dict \<Rightarrow> error + (pyval \<times> world)" where
  "call set_dependencies w self args kwargs =
     (case call_bind (objs w ! self) args kwargs of
        Inl e \<Rightarrow> Inl e
      | Inr callargs \<Rightarrow>
          (let (flow, w1) = resolve_flow w
           in set_dependencies w1 flow self callargs))"

text \<open>
  The errors \<open>inspect.Signature.bind\<close> raises when the arguments do not fit the
  signature: the \<open>TypeError\<close>s of a missing argument, of too many positional arguments,
  of several values for one parameter and of an unexpected keyword.
\<close>

fun binding_error :: "error \<Rightarrow> bool" where
  "binding_error (TypeError (MissingRequired n)) = True"
| "binding_error (TypeError TooManyPositional) = True"
| "binding_error (TypeError (MultipleValues n)) = True"
| "binding_error (TypeError (UnexpectedKeyword n)) = True"
| "binding_error e = False"

text \<open>
  The three ways in which arguments fail to fit a signature.  A parameter that is not
  the capture parameter and has no default receives no value: it lies beyond the
  positional arguments and is not named by a keyword argument.  A parameter receives
  two values: it is reached by a positional argument and named by a keyword argument.  A
  keyword argument names no declared parameter while there is no capture parameter.
\<close>

definition missing_required :: "param list \<Rightarrow> pyval list \<Rightarrow> dict \<Rightarrow> bool" where
  "missing_required signature args kwargs =
     list_ex (\<lambda>p. pkind p = POSITIONAL_OR_KEYWORD \<and> pdefault p = None
                  \<and> \<not> dict_contains kwargs (pname p))
       (drop (length args) signature)"

definition duplicate_binding :: "param list \<Rightarrow> pyval list \<Rightarrow> dict \<Rightarrow> bool" where
  "duplicate_binding signature args kwargs =
     list_ex (\<lambda>p. dict_contains kwargs (pname p)) (take (length args) signature)"

definition unrecognized_keyword :: "param list \<Rightarrow> dict \<Rightarrow> bool" where
  "unrecognized_keyword signature kwargs =
     (get_var_kw_arg signature = None
      \<and> list_ex (\<lambda>(k, v). k \<notin> pname ` set signature) kwargs)"

text \<open>
  What Python guarantees of a signature: the parameter names are distinct and there is
  at most one \<open>**kwargs\<close> parameter.
\<close>

definition wf_signature :: "param list \<Rightarrow> bool" where
  "wf_signature signature =
     (distinct (map pname signature)
      \<and> length (filter (\<lambda>p. pkind p = VAR_KEYWORD) signature) \<le> 1)"

text \<open>The names of the parameters that are not the capture parameter.\<close>

definition named_params :: "param list \<Rightarrow> string set" where
  "named_params ps = pname ` set (filter (\<lambda>p. pkind p \<noteq> VAR_KEYWORD) ps)"

section \<open>Serialization\<close>

text \<open>
  \<open>Task.serialize\<close>.  \<open>base\<close> is the mapping \<open>super().serialize()\<close> returns;
  \<open>Serializable\<close> is not among the sources, so it is a parameter.
\<close>

definition serialize :: "dict \<Rightarrow> task \<Rightarrow> dict" where
  "serialize base t =
     dict_update base
       [(''name'', PStr (name t)),
        (''id'', PStr (task_id t)),
        (''description'', description t),
        (''max_retries'', max_retries t),
        (''retry_delay'', retry_delay t),
        (''timeout'', timeout t),
        (''trigger'', trigger t),
        (''type'', PStr (cls_name (cls t))),
        (''prefect_version'', PStr (task_prefect_version t))]"

text \<open>
  \<open>Task.after_deserialize\<close>: \<open>self.id = serialized['id']; self.register()\<close>.  A mapping
  without the key raises \<open>KeyError\<close>.  Identifiers are strings here, so a mapping whose
  \<open>id\<close> is not a string is outside the model and shown as an error.
\<close>

definition after_deserialize :: "world \<Rightarrow> nat \<Rightarrow> dict \<Rightarrow> error + world" where
  "after_deserialize w self serialized =
     (case map_of serialized ''id'' of
        None \<Rightarrow> Inl (KeyError ''id'')
      | Some (PStr x) \<Rightarrow> Inr (register (set_id w self x) self)
      | Some _ \<Rightarrow> Inl (TypeError NotAString))"

text \<open>
  Modelled from the spec: \<open>Serializable.deserialize\<close> is not among the sources.
  \<open>deserialize(mapping)\<close> reconstructs a task of the variant named by \<open>type\<close>, then
  explicitly sets its \<open>id\<close> from the mapping's \<open>id\<close> field, overriding any identifier
  generated during reconstruction, and re-registers it.  The reconstruction is a new
  instance of the class that \<open>classes\<close> gives for the name, with the configuration of
  the mapping, an identifier of its own from \<open>generate_uuid\<close>, registered, and an empty
  dictionary of secrets; the mapping carries no attribute of \<open>Parameter\<close>.  The second
  step is \<open>after_deserialize\<close> of the source.
\<close>

definition reconstruct :: "world \<Rightarrow> pyclass \<Rightarrow> dict \<Rightarrow> error + (nat \<times> world)" where
  "reconstruct w c m =
     (case map_of m ''name'' of
        Some (PStr n) \<Rightarrow>
          (let self = length (objs w);
               (u, w1) = generate_uuid w;
               (s, w2) = secrets_or_empty w1 None;
               t = \<lparr>cls = c,
                    task_id = u,
                    name = n,
                    description = dict_get m ''description'' PNone,
                    max_retries = dict_get m ''max_retries'' PNone,
                    retry_delay = dict_get m ''retry_delay'' PNone,
                    timeout = dict_get m ''timeout'' PNone,
                    trigger = dict_get m ''trigger'' PNone,
                    secrets = s,
                    task_prefect_version = prefect_version w,
                    param_attrs = None\<rparr>
           in Inr (self, register (w2\<lparr>objs := objs w2 @ [t]\<rparr>) self))
      | _ \<Rightarrow> Inl (KeyError ''name''))"

definition deserialize ::
  "world \<Rightarrow> (string \<rightharpoonup> pyclass) \<Rightarrow> dict \<Rightarrow> error + (nat \<times> world)" where
  "deserialize w classes m =
     (case map_of m ''type'' of
        Some (PStr ty) \<Rightarrow>
          (case classes ty of
             None \<Rightarrow> Inl (KeyError ty)
           | Some c \<Rightarrow>
               (case reconstruct w c m of
                  Inl e \<Rightarrow> Inl e
                | Inr (self, w1) \<Rightarrow>
                    (case after_deserialize w1 self m of
                       Inl e \<Rightarrow> Inl e
                     | Inr w2 \<Rightarrow> Inr (self, w2))))
      | _ \<Rightarrow> Inl (KeyError ''type''))"

section \<open>Example data\<close>

text \<open>The classes \<open>Task\<close> and \<open>Parameter\<close>, whose \<open>run\<close> declares \<open>self\<close> only.\<close>

definition self_param :: param where
  "self_param = \<lparr>pname = ''self'', pkind = POSITIONAL_OR_KEYWORD, pdefault = None\<rparr>"

definition Task_class :: pyclass where
  "Task_class = \<lparr>cls_name = ''Task'', run_decl = [self_param]\<rparr>"

definition Parameter_class :: pyclass where
  "Parameter_class = \<lparr>cls_name = ''Parameter'', run_decl = [self_param]\<rparr>"

text \<open>
  A class whose work function is declared \<open>run(self, x, y, c=None)\<close>, and one declared
  \<open>run(self, x, **kwargs)\<close>.
\<close>

definition XYC_class :: pyclass where
  "XYC_class =
     \<lparr>cls_name = ''XYC'',
      run_decl =
        [self_param,
         \<lparr>pname = ''x'', pkind = POSITIONAL_OR_KEYWORD, pdefault = None\<rparr>,
         \<lparr>pname = ''y'', pkind = POSITIONAL_OR_KEYWORD, pdefault = None\<rparr>,
         \<lparr>pname = ''c'', pkind = POSITIONAL_OR_KEYWORD, pdefault = Some PNone\<rparr>]\<rparr>"

definition XKw_class :: pyclass where
  "XKw_class =
     \<lparr>cls_name = ''XKw'',
      run_decl =
        [self_param,
         \<lparr>pname = ''x'', pkind = POSITIONAL_OR_KEYWORD, pdefault = None\<rparr>,
         \<lparr>pname = ''kwargs'', pkind = VAR_KEYWORD, pdefault = None\<rparr>]\<rparr>"

text \<open>
  A world with no instance, no flow being built and no runtime parameters; its
  identifiers are \<open>task-0000\<close> followed by as many \<open>x\<close> as identifiers were issued before.
\<close>

definition world0 :: world where
  "world0 =
     \<lparr>objs = [], dicts = [], flows = [], TASK_REGISTRY = Map.empty,
      uuid_source = (\<lambda>n. ''task-0000'' @ replicate n (CHR ''x'')),
      uuid_count = 0, prefect_version = ''0.1.0'',
      ctx_flow = None, ctx_parameters = None\<rparr>"

text \<open>The task a constructor call with \<open>c\<close> and the default arguments builds in \<open>world0\<close>.\<close>

definition world1 :: "pyclass \<Rightarrow> world" where
  "world1 c =
     snd (Task_init world0 c None None None PNone (PInt 0) (PTimedelta 60) PNone PNone None)"

text \<open>
  Modelled from the spec: a \<open>Flow.set_dependencies\<close> that registers the task as a node
  (adding a node already present changes nothing) and, for every entry of the binding
  map, an edge from the value to the task under the parameter's name, and returns the
  task for further chaining.
\<close>

definition spec_set_dependencies ::
  "world \<Rightarrow> nat \<Rightarrow> nat \<Rightarrow> dict \<Rightarrow> error + (pyval \<times> world)" where
  "spec_set_dependencies w f t keyword_results =
     (let fl1 = add_task (flows w ! f) t;
          fl2 = fl1\<lparr>edges := edges fl1 @ map (\<lambda>(k, v). (v, t, k)) keyword_results\<rparr>
      in Inr (PObj t, w\<lparr>flows := (flows w)[f := fl2]\<rparr>))"

text \<open>
  \<open>Parameter(name="n")\<close> and \<open>Parameter(name="n", default=5, required=True)\<close>, each
  built in \<open>world0\<close>.
\<close>

definition param_n :: task where
  "param_n = objs (snd (Parameter_init world0 Parameter_class ''n'' PNone True)) ! 0"

definition param_d :: task where
  "param_d = objs (snd (Parameter_init world0 Parameter_class ''n'' (PInt 5) True)) ! 0"

section \<open>Properties of identification and construction\<close>

lemma register_objs: "objs (register w a) = objs w"
  by (simp add: register_def)

lemma register_registry:
  "TASK_REGISTRY (register w a) = (TASK_REGISTRY w)(task_id (objs w ! a) \<mapsto> a)"
  by (simp add: register_def)

lemma set_id_objs:
  "objs (set_id w a x) = (objs w)[a := (objs w ! a)\<lparr>task_id := x\<rparr>]"
  by (simp add: set_id_def register_def)

lemma set_id_registry:
  "a < length (objs w) \<Longrightarrow> TASK_REGISTRY (set_id w a x) = (TASK_REGISTRY w)(x \<mapsto> a)"
  by (simp add: set_id_def register_def)

lemmas example_defs =
  world1_def world0_def Task_init_def generate_uuid_def secrets_or_empty_def
  register_def Task_class_def self_param_def

text \<open>
  C5.  For every task \<open>t\<close> (the instance at \<open>a\<close>) and identifier \<open>x\<close>: right after
  \<open>t.id = x\<close>, looking \<open>x\<close> up in the registry returns \<open>t\<close>, the identifier of \<open>t\<close> is \<open>x\<close>,
  and \<open>t.short_id\<close> is the first eight characters of \<open>x\<close>.
\<close>

theorem id_setter_registers:
  assumes "a < length (objs w)"
  shows "TASK_REGISTRY (set_id w a x) x = Some a
       \<and> task_id (objs (set_id w a x) ! a) = x
       \<and> short_id (objs (set_id w a x) ! a) = take 8 x"
  using assms by (simp add: set_id_registry set_id_objs short_id_def)

text \<open>
  The task built by \<open>Task()\<close> in \<open>world0\<close> is given the identifier \<open>0123456789abcdef\<close>.
\<close>

theorem id_setter_registers_witness:
  "0 < length (objs (world1 Task_class))
   \<and> TASK_REGISTRY (set_id (world1 Task_class) 0 ''0123456789abcdef'') ''0123456789abcdef''
       = Some 0
   \<and> task_id (objs (set_id (world1 Task_class) 0 ''0123456789abcdef'') ! 0)
       = ''0123456789abcdef''
   \<and> short_id (objs (set_id (world1 Task_class) 0 ''0123456789abcdef'') ! 0) = ''01234567''"
  using id_setter_registers [of 0 "world1 Task_class" "''0123456789abcdef''"]
  by (simp add: example_defs Let_def)

lemma Task_init_objs:
  "objs (snd (Task_init w c pa nm i descr retries delay tmo trig secr)) ! length (objs w)
     = \<lparr>cls = c, task_id = fst (generate_uuid w),
        name = (case nm of None \<Rightarrow> cls_name c | Some n \<Rightarrow> if n = [] then cls_name c else n),
        description = descr, max_retries = retries, retry_delay = delay, timeout = tmo,
        trigger = (if trig = PNone then PFunc ''prefect.triggers.all_successful'' else trig),
        secrets = fst (secrets_or_empty (snd (generate_uuid w)) secr),
        task_prefect_version = prefect_version w, param_attrs = pa\<rparr>"
  "take (length (objs w)) (objs (snd (Task_init w c pa nm i descr retries delay tmo trig secr)))
     = objs w"
  "length (objs (snd (Task_init w c pa nm i descr retries delay tmo trig secr)))
     = Suc (length (objs w))"
  by (simp_all add: Task_init_def Let_def generate_uuid_def register_def secrets_or_empty_def
        split: prod.splits option.splits)

lemma Task_init_tokens:
  "uuid_source (snd (Task_init w c pa nm i descr retries delay tmo trig secr)) = uuid_source w"
  "uuid_count (snd (Task_init w c pa nm i descr retries delay tmo trig secr))
     = Suc (uuid_count w)"
  by (simp_all add: Task_init_def Let_def generate_uuid_def register_def secrets_or_empty_def
        split: prod.splits option.splits)

lemma unique_tokens_fresh:
  assumes "unique_tokens w" and "b < length (objs w)"
  shows "fst (generate_uuid w) \<noteq> task_id (objs w ! b)"
proof
  assume "fst (generate_uuid w) = task_id (objs w ! b)"
  then have "uuid_source w (uuid_count w) \<in> task_id ` set (objs w)"
    using assms(2) by (simp add: generate_uuid_def)
  with assms(1) show False by (simp add: unique_tokens_def)
qed

text \<open>
  A world grown by one task whose identifier is the token just issued keeps its tokens
  unique.
\<close>

lemma unique_tokens_step:
  assumes u: "unique_tokens w"
    and src: "uuid_source w1 = uuid_source w"
    and cnt: "uuid_count w1 = Suc (uuid_count w)"
    and ids: "task_id ` set (objs w1) \<subseteq> insert (uuid_source w (uuid_count w))
                (task_id ` set (objs w))"
  shows "unique_tokens w1"
proof -
  from u have inj: "inj (uuid_source w)"
    and old: "\<And>n. uuid_count w \<le> n \<Longrightarrow> uuid_source w n \<notin> task_id ` set (objs w)"
    by (simp_all add: unique_tokens_def)
  have "uuid_source w1 n \<notin> task_id ` set (objs w1)" if n: "uuid_count w1 \<le> n" for n
  proof
    assume "uuid_source w1 n \<in> task_id ` set (objs w1)"
    with ids src have "uuid_source w n = uuid_source w (uuid_count w)
                       \<or> uuid_source w n \<in> task_id ` set (objs w)"
      by auto
    then show False
    proof
      assume "uuid_source w n = uuid_source w (uuid_count w)"
      with inj have "n = uuid_count w" by (simp add: inj_eq)
      with n cnt show False by simp
    next
      assume "uuid_source w n \<in> task_id ` set (objs w)"
      moreover from n cnt have "uuid_count w \<le> n" by simp
      ultimately show False using old by blast
    qed
  qed
  with inj src show ?thesis by (simp add: unique_tokens_def)
qed

lemma set_take_Suc_conv:
  "length xs = Suc n \<Longrightarrow> set xs = insert (xs ! n) (set (take n xs))"
proof -
  assume l: "length xs = Suc n"
  then have "xs = take n xs @ [xs ! n]"
    by (metis lessI take_Suc_conv_app_nth take_all_iff le_refl)
  then have "set xs = set (take n xs @ [xs ! n])" by simp
  then show ?thesis by simp
qed

lemma Task_init_unique:
  assumes "unique_tokens w"
  shows "unique_tokens (snd (Task_init w c pa nm i descr retries delay tmo trig secr))"
proof (rule unique_tokens_step[OF assms])
  let ?w1 = "snd (Task_init w c pa nm i descr retries delay tmo trig secr)"
  show "uuid_source ?w1 = uuid_source w" by (rule Task_init_tokens)
  show "uuid_count ?w1 = Suc (uuid_count w)" by (rule Task_init_tokens)
  have "set (objs ?w1) = insert (objs ?w1 ! length (objs w)) (set (objs w))"
    using set_take_Suc_conv[OF Task_init_objs(3), of w c pa nm i descr retries delay tmo trig secr]
    by (simp add: Task_init_objs(2))
  then show "task_id ` set (objs ?w1)
               \<subseteq> insert (uuid_source w (uuid_count w)) (task_id ` set (objs w))"
    by (simp add: Task_init_objs(1) generate_uuid_def)
qed





lemma inj_example_source: "inj (\<lambda>n. ''task-0000'' @ replicate n (CHR ''x''))"
  by (rule injI) simp

lemma unique_tokens_world0: "unique_tokens world0"
  using inj_example_source by (simp add: unique_tokens_def world0_def)

lemma unique_tokens_world1: "unique_tokens (world1 c)"
  unfolding world1_def by (rule Task_init_unique[OF unique_tokens_world0])


section \<open>Properties of the work functions\<close>

text \<open>
  C7.  A parameter \<open>p\<close> run against the runtime parameters of the context: when \<open>p\<close> is
  required and its name is not in the mapping, the run raises \<open>FAIL\<close> (and no other
  exception) with a message that contains the name; when the name is in the mapping, the
  run returns the value under it; when it is not and \<open>p\<close> is not required, the run
  returns the default of \<open>p\<close>.
\<close>

theorem parameter_run_cases:
  assumes "param_attrs t = Some pa"
    and "params = (case ctx_parameters w of None \<Rightarrow> [] | Some d \<Rightarrow> d)"
  shows "(required pa \<and> \<not> dict_contains params (name t) \<longrightarrow>
            (\<exists>pre post. Parameter_run w t = Inl (FAIL (pre @ name t @ post))))
       \<and> (\<forall>v. map_of params (name t) = Some v \<longrightarrow> Parameter_run w t = Inr v)
       \<and> (\<not> dict_contains params (name t) \<and> \<not> required pa \<longrightarrow>
            Parameter_run w t = Inr (default_value pa))"
proof (intro conjI impI allI)
  assume "required pa \<and> \<not> dict_contains params (name t)"
  then have "Parameter_run w t =
      Inl (FAIL ((''Parameter '' @ [CHR 0x22]) @ name t @
                 ([CHR 0x22] @ '' was required but not provided.'')))"
    using assms by (simp add: Parameter_run_def)
  then show "\<exists>pre post. Parameter_run w t = Inl (FAIL (pre @ name t @ post))"
    by blast
next
  fix v assume "map_of params (name t) = Some v"
  then show "Parameter_run w t = Inr v"
    using assms by (simp add: Parameter_run_def dict_contains_def dict_get_def)
next
  assume "\<not> dict_contains params (name t) \<and> \<not> required pa"
  then show "Parameter_run w t = Inr (default_value pa)"
    using assms by (simp add: Parameter_run_def dict_contains_def dict_get_def)
qed

lemma param_n_attrs:
  "param_attrs param_n = Some \<lparr>required = True, default_value = PNone\<rparr>"
  "name param_n = ''n''"
  by (simp_all add: param_n_def Parameter_init_def example_defs Let_def)

lemma param_d_attrs:
  "param_attrs param_d = Some \<lparr>required = False, default_value = PInt 5\<rparr>"
  "name param_d = ''n''"
  by (simp_all add: param_d_def Parameter_init_def example_defs Let_def)

text \<open>
  The required parameter \<open>n\<close> with no runtime parameters and with \<open>n = 3\<close>, and the
  parameter \<open>n\<close> of default 5 with no runtime parameters.
\<close>

theorem parameter_run_cases_witness:
  "param_attrs param_n = Some \<lparr>required = True, default_value = PNone\<rparr>
   \<and> param_attrs param_d = Some \<lparr>required = False, default_value = PInt 5\<rparr>
   \<and> \<not> dict_contains [] ''n''
   \<and> map_of [(''n'', PInt 3)] ''n'' = Some (PInt 3)
   \<and> (\<exists>pre post. Parameter_run world0 param_n = Inl (FAIL (pre @ ''n'' @ post)))
   \<and> Parameter_run (world0\<lparr>ctx_parameters := Some [(''n'', PInt 3)]\<rparr>) param_n = Inr (PInt 3)
   \<and> Parameter_run world0 param_d = Inr (PInt 5)"
  using
    parameter_run_cases [of param_n "\<lparr>required = True, default_value = PNone\<rparr>" "[]" world0]
    parameter_run_cases [of param_n "\<lparr>required = True, default_value = PNone\<rparr>"
      "[(''n'', PInt 3)]" "world0\<lparr>ctx_parameters := Some [(''n'', PInt 3)]\<rparr>"]
    parameter_run_cases [of param_d "\<lparr>required = False, default_value = PInt 5\<rparr>" "[]" world0]
  by (simp add: param_n_attrs param_d_attrs dict_contains_def world0_def)

text \<open>
  C8.  \<open>inputs\<close> returns the names of the parameters the work function declares, in the
  order of the declaration and without the first one, which is the instance itself.  It
  reads the declaration of the task's class and nothing else: it takes no world and
  returns none, and it is computed from the declaration at every call.
\<close>

theorem inputs_declared_names:
  assumes "run_decl (cls t) = self # ps" and "pkind self = POSITIONAL_OR_KEYWORD"
  shows "inputs t = Inr (map pname ps)"
  using assms by (simp add: inputs_def)

text \<open>A work function declared \<open>run(self, x, y, c=None)\<close> has the inputs \<open>x\<close>, \<open>y\<close>, \<open>c\<close>.\<close>

theorem inputs_declared_names_witness:
  "run_decl (cls (objs (world1 XYC_class) ! 0)) = self_param # tl (run_decl XYC_class)
   \<and> pkind self_param = POSITIONAL_OR_KEYWORD
   \<and> inputs (objs (world1 XYC_class) ! 0) = Inr [''x'', ''y'', ''c'']"
  using inputs_declared_names
    [of "objs (world1 XYC_class) ! 0" self_param "tl (run_decl XYC_class)"]
  by (simp add: example_defs XYC_class_def Let_def)

section \<open>Properties of copying\<close>

lemma param_attrs_same: "param_attrs t = v \<Longrightarrow> t\<lparr>param_attrs := v\<rparr> = t"
  by (cases t) simp

lemma copy_copy_objs: "objs (snd (copy_copy w a)) = objs w @ [objs w ! a]"
  by (cases "param_attrs (objs w ! a)")
     (simp_all add: copy_copy_def Let_def setstate_def register_def blank_def param_attrs_same)

lemma copy_copy_result:
  "fst (copy_copy w a) = length (objs w)"
  "TASK_REGISTRY (snd (copy_copy w a))
     = (TASK_REGISTRY w)(task_id (objs w ! a) \<mapsto> length (objs w))"
  "dicts (snd (copy_copy w a)) = dicts w"
  "uuid_source (snd (copy_copy w a)) = uuid_source w"
  "uuid_count (snd (copy_copy w a)) = uuid_count w"
  by (simp_all add: copy_copy_def Let_def setstate_def register_def)

lemma copy_fst: "fst (copy w a) = length (objs w)"
  by (simp add: copy_def Let_def split_beta copy_copy_result)

lemma copy_snd:
  "snd (copy w a) =
     register (set_id ((snd (copy_copy w a))\<lparr>uuid_count := Suc (uuid_count w)\<rparr>)
                 (length (objs w)) (uuid_source w (uuid_count w)))
       (length (objs w))"
  by (simp add: copy_def Let_def split_beta generate_uuid_def copy_copy_result)

lemma copy_objs:
  "objs (snd (copy w a)) = objs w @ [(objs w ! a)\<lparr>task_id := fst (generate_uuid w)\<rparr>]"
  by (simp add: copy_snd register_def set_id_def generate_uuid_def copy_copy_result
        copy_copy_objs)

lemma copy_registry:
  "TASK_REGISTRY (snd (copy w a))
     = (TASK_REGISTRY w)(task_id (objs w ! a) \<mapsto> length (objs w),
                         fst (generate_uuid w) \<mapsto> length (objs w))"
  by (simp add: copy_snd register_def set_id_def generate_uuid_def copy_copy_result
        copy_copy_objs)

lemma copy_dicts: "dicts (snd (copy w a)) = dicts w"
  by (simp add: copy_snd register_def set_id_def generate_uuid_def copy_copy_result
        copy_copy_objs)

lemma copy_tokens:
  "uuid_source (snd (copy w a)) = uuid_source w"
  "uuid_count (snd (copy w a)) = Suc (uuid_count w)"
  by (simp_all add: copy_snd register_def set_id_def generate_uuid_def copy_copy_result
        copy_copy_objs)

lemma copy_unique:
  assumes "unique_tokens w"
  shows "unique_tokens (snd (copy w a))"
proof (rule unique_tokens_step[OF assms])
  show "uuid_source (snd (copy w a)) = uuid_source w" by (rule copy_tokens)
  show "uuid_count (snd (copy w a)) = Suc (uuid_count w)" by (rule copy_tokens)
  show "task_id ` set (objs (snd (copy w a)))
          \<subseteq> insert (uuid_source w (uuid_count w)) (task_id ` set (objs w))"
    by (simp add: copy_objs generate_uuid_def)
qed

text \<open>
  C6.  For every task \<open>t\<close> (the instance at \<open>a\<close>) of a world whose tokens are unique,
  \<open>copy\<close> gives a new instance \<open>t2\<close> and leaves \<open>t\<close> as it is.  The identifier of \<open>t2\<close> is
  the one of no task that existed, so it is not the one of \<open>t\<close>, and the registry gives
  \<open>t2\<close> under it.  Class, name, description, max_retries, retry_delay, timeout, trigger,
  version and the attributes of \<open>Parameter\<close> are equal between \<open>t\<close> and \<open>t2\<close>, and
  \<open>secrets\<close> is the same reference in both, no dictionary being created or changed.  The
  duplicate is filled and registered by \<open>__setstate__\<close> before it gets its identifier, so
  after the copy the registry gives \<open>t2\<close> under the identifier of \<open>t\<close> as well.  The
  tokens stay unique.
\<close>

theorem copy_fresh_shallow:
  assumes "a < length (objs w)"
    and "unique_tokens w"
    and "t = objs w ! a"
    and "t2 = objs (snd (copy w a)) ! fst (copy w a)"
  shows "fst (copy w a) = length (objs w)
       \<and> take (length (objs w)) (objs (snd (copy w a))) = objs w
       \<and> objs (snd (copy w a)) ! a = t
       \<and> (\<forall>b < length (objs w). task_id t2 \<noteq> task_id (objs w ! b))
       \<and> task_id t2 \<noteq> task_id t
       \<and> TASK_REGISTRY (snd (copy w a)) (task_id t2) = Some (fst (copy w a))
       \<and> TASK_REGISTRY (snd (copy w a)) (task_id t) = Some (fst (copy w a))
       \<and> cls t2 = cls t
       \<and> name t2 = name t \<and> description t2 = description t
       \<and> max_retries t2 = max_retries t \<and> retry_delay t2 = retry_delay t
       \<and> timeout t2 = timeout t \<and> trigger t2 = trigger t
       \<and> task_prefect_version t2 = task_prefect_version t
       \<and> param_attrs t2 = param_attrs t
       \<and> secrets t2 = secrets t
       \<and> dicts (snd (copy w a)) = dicts w
       \<and> unique_tokens (snd (copy w a))"
proof -
  have t2: "t2 = t\<lparr>task_id := fst (generate_uuid w)\<rparr>"
    using assms(3) assms(4) by (simp add: copy_fst copy_objs)
  have fresh: "\<forall>b < length (objs w). fst (generate_uuid w) \<noteq> task_id (objs w ! b)"
    using unique_tokens_fresh[OF assms(2)] by blast
  with assms(1) assms(3) have ne: "fst (generate_uuid w) \<noteq> task_id t" by simp
  have c1: "fst (copy w a) = length (objs w)" by (rule copy_fst)
  have c2: "take (length (objs w)) (objs (snd (copy w a))) = objs w"
    by (simp add: copy_objs)
  have c3: "objs (snd (copy w a)) ! a = t"
    using assms(1) assms(3) by (simp add: copy_objs nth_append)
  have c4: "\<forall>b < length (objs w). task_id t2 \<noteq> task_id (objs w ! b)"
    using fresh by (simp add: t2)
  have c5: "task_id t2 \<noteq> task_id t" using ne by (simp add: t2)
  have c6: "TASK_REGISTRY (snd (copy w a)) (task_id t2) = Some (fst (copy w a))"
    by (simp add: t2 copy_registry copy_fst)
  have c7: "TASK_REGISTRY (snd (copy w a)) (task_id t) = Some (fst (copy w a))"
    using ne assms(3) by (simp add: copy_registry copy_fst)
  have c8: "dicts (snd (copy w a)) = dicts w" by (rule copy_dicts)
  have c9: "unique_tokens (snd (copy w a))" by (rule copy_unique[OF assms(2)])
  from c1 c2 c3 c4 c5 c6 c7 c8 c9 show ?thesis by (simp add: t2)
qed

text \<open>The copy of the task built by \<open>Task()\<close> in \<open>world0\<close>.\<close>

theorem copy_fresh_shallow_witness:
  "0 < length (objs (world1 Task_class))
   \<and> unique_tokens (world1 Task_class)
   \<and> fst (copy (world1 Task_class) 0) = 1
   \<and> task_id (objs (world1 Task_class) ! 0) = ''task-0000''
   \<and> task_id (objs (snd (copy (world1 Task_class) 0)) ! 1) = ''task-0000x''
   \<and> TASK_REGISTRY (snd (copy (world1 Task_class) 0)) ''task-0000x'' = Some 1
   \<and> TASK_REGISTRY (snd (copy (world1 Task_class) 0)) ''task-0000'' = Some 1
   \<and> name (objs (snd (copy (world1 Task_class) 0)) ! 1) = ''Task''
   \<and> secrets (objs (snd (copy (world1 Task_class) 0)) ! 1) = 0
   \<and> secrets (objs (world1 Task_class) ! 0) = 0"
  using copy_fresh_shallow [of 0 "world1 Task_class" "objs (world1 Task_class) ! 0"
      "objs (snd (copy (world1 Task_class) 0)) ! fst (copy (world1 Task_class) 0)"]
    unique_tokens_world1 [of Task_class]
  by (simp add: copy_fst copy_objs copy_registry example_defs Let_def)

section \<open>Properties of serialization\<close>

lemma dict_update_keys:
  "fst ` set (dict_update d e) = fst ` set d \<union> fst ` set e"
  by (induction d e rule: dict_update.induct) (auto simp: AList.dom_update)

lemma map_of_dict_update_notin:
  "k \<notin> fst ` set e \<Longrightarrow> map_of (dict_update d e) k = map_of d k"
  by (induction d e rule: dict_update.induct) (auto simp: AList.update_conv')

lemma serialize_keys:
  "fst ` set (serialize base t) =
     fst ` set base \<union> {''name'', ''id'', ''description'', ''max_retries'', ''retry_delay'',
                        ''timeout'', ''trigger'', ''type'', ''prefect_version''}"
  unfolding serialize_def dict_update_keys by auto

lemma serialize_lookup:
  "map_of (serialize base t) ''name'' = Some (PStr (name t))"
  "map_of (serialize base t) ''id'' = Some (PStr (task_id t))"
  "map_of (serialize base t) ''description'' = Some (description t)"
  "map_of (serialize base t) ''max_retries'' = Some (max_retries t)"
  "map_of (serialize base t) ''retry_delay'' = Some (retry_delay t)"
  "map_of (serialize base t) ''timeout'' = Some (timeout t)"
  "map_of (serialize base t) ''trigger'' = Some (trigger t)"
  "map_of (serialize base t) ''type'' = Some (PStr (cls_name (cls t)))"
  "map_of (serialize base t) ''prefect_version'' = Some (PStr (task_prefect_version t))"
  by (simp_all add: serialize_def AList.update_conv')

lemma Task_init_version:
  "task_prefect_version
     (objs (snd (Task_init w c pa nm i descr retries delay tmo trig secr)) ! length (objs w))
   = prefect_version w"
  by (simp add: Task_init_def Let_def generate_uuid_def register_def secrets_or_empty_def
           split: prod.splits option.splits)

text \<open>
  C2, as the claim states it, fails: whatever \<open>super().serialize()\<close> returns, the
  mapping of the task built by \<open>Task()\<close> in \<open>world0\<close> has the key \<open>prefect_version\<close>, which
  is not one of the nine keys of the claim (the claim's ninth key is \<open>version\<close>).
\<close>

theorem serialize_keys_counterexample:
  "\<not> (\<exists>base. fst ` set (serialize base (objs (world1 Task_class) ! 0)) =
        {''name'', ''id'', ''description'', ''max_retries'', ''retry_delay'',
         ''timeout'', ''trigger'', ''type'', ''version''})"
proof
  assume "\<exists>base. fst ` set (serialize base (objs (world1 Task_class) ! 0)) =
        {''name'', ''id'', ''description'', ''max_retries'', ''retry_delay'',
         ''timeout'', ''trigger'', ''type'', ''version''}"
  then obtain base where
    "fst ` set (serialize base (objs (world1 Task_class) ! 0)) =
        {''name'', ''id'', ''description'', ''max_retries'', ''retry_delay'',
         ''timeout'', ''trigger'', ''type'', ''version''}" ..
  moreover have
    "''prefect_version'' \<in> fst ` set (serialize base (objs (world1 Task_class) ! 0))"
    by (simp add: serialize_keys)
  ultimately have
    "''prefect_version'' \<in> {''name'', ''id'', ''description'', ''max_retries'',
       ''retry_delay'', ''timeout'', ''trigger'', ''type'', ''version''}"
    by simp
  then show False by simp
qed

text \<open>
  C2, amended.  The keys of \<open>serialize(t)\<close> are those of the mapping that
  \<open>super().serialize()\<close> returns together with \<open>name\<close>, \<open>id\<close>, \<open>description\<close>,
  \<open>max_retries\<close>, \<open>retry_delay\<close>, \<open>timeout\<close>, \<open>trigger\<close>, \<open>type\<close> and \<open>prefect_version\<close>;
  \<open>type\<close> is the name of the class of \<open>t\<close>; \<open>prefect_version\<close> is the version string
  stored in \<open>t\<close>, which for a task just constructed is the version of the system that
  constructed it.
\<close>

theorem serialize_keys_and_version:
  "fst ` set (serialize base t) =
     fst ` set base \<union> {''name'', ''id'', ''description'', ''max_retries'', ''retry_delay'',
                        ''timeout'', ''trigger'', ''type'', ''prefect_version''}
   \<and> map_of (serialize base t) ''type'' = Some (PStr (cls_name (cls t)))
   \<and> map_of (serialize base t) ''prefect_version'' = Some (PStr (task_prefect_version t))
   \<and> map_of (serialize base
        (objs (snd (Task_init w c pa nm i descr retries delay tmo trig secr)) ! length (objs w)))
        ''prefect_version'' = Some (PStr (prefect_version w))"
  by (simp add: serialize_keys serialize_lookup Task_init_version)

lemma reconstruct_serialize:
  "reconstruct w c (serialize base t) = Inr (length (objs w),
     register (snd (secrets_or_empty (snd (generate_uuid w)) None)
       \<lparr>objs := objs w @ [\<lparr>cls = c, task_id = fst (generate_uuid w), name = name t,
          description = description t, max_retries = max_retries t,
          retry_delay = retry_delay t, timeout = timeout t, trigger = trigger t,
          secrets = length (dicts w), task_prefect_version = prefect_version w,
          param_attrs = None\<rparr>]\<rparr>) (length (objs w)))"
  by (simp add: reconstruct_def serialize_lookup dict_get_def Let_def generate_uuid_def
        secrets_or_empty_def)

text \<open>
  C3.  For every task \<open>t\<close> whose class is known by its name, \<open>deserialize(serialize(t))\<close>
  returns a new instance of that class.  Its identifier is the one of \<open>t\<close>, set from the
  \<open>id\<close> of the mapping in place of the identifier the reconstruction generated, and the
  registry gives the new instance under it.  Its name, description, max_retries,
  retry_delay, timeout and trigger are those of \<open>t\<close>.
\<close>

theorem deserialize_serialize:
  assumes "classes (cls_name (cls t)) = Some c"
  shows "\<exists>new w2. deserialize w classes (serialize base t) = Inr (new, w2)
       \<and> new = length (objs w)
       \<and> cls (objs w2 ! new) = c
       \<and> task_id (objs w2 ! new) = task_id t
       \<and> TASK_REGISTRY w2 (task_id t) = Some new
       \<and> name (objs w2 ! new) = name t
       \<and> description (objs w2 ! new) = description t
       \<and> max_retries (objs w2 ! new) = max_retries t
       \<and> retry_delay (objs w2 ! new) = retry_delay t
       \<and> timeout (objs w2 ! new) = timeout t
       \<and> trigger (objs w2 ! new) = trigger t"
  using assms
  by (simp add: deserialize_def serialize_lookup reconstruct_serialize after_deserialize_def
        set_id_def register_def)

text \<open>
  The task built by \<open>Task()\<close> in \<open>world0\<close>, serialized and deserialized in the world it
  lives in: the result is the instance 1, with the identifier of the instance 0.
\<close>

theorem deserialize_serialize_witness:
  "[''Task'' \<mapsto> Task_class] (cls_name (cls (objs (world1 Task_class) ! 0))) = Some Task_class
   \<and> (\<exists>w2. deserialize (world1 Task_class) [''Task'' \<mapsto> Task_class]
              (serialize [] (objs (world1 Task_class) ! 0)) = Inr (1, w2)
           \<and> task_id (objs w2 ! 1) = ''task-0000''
           \<and> TASK_REGISTRY w2 ''task-0000'' = Some 1
           \<and> name (objs w2 ! 1) = ''Task'')"
  using deserialize_serialize [of "[''Task'' \<mapsto> Task_class]" "objs (world1 Task_class) ! 0"
      Task_class "world1 Task_class" "[]"]
  by (auto simp add: example_defs Let_def)

section \<open>Properties of the binding of arguments\<close>

lemma dict_contains_iff: "dict_contains d k \<longleftrightarrow> k \<in> fst ` set d"
  by (simp add: dict_contains_def map_of_eq_None_iff)

lemma dict_contains_delete:
  "dict_contains (AList.delete k d) n \<longleftrightarrow> n \<noteq> k \<and> dict_contains d n"
  by (simp add: dict_contains_def AList.delete_conv')

lemma bind_positional_error:
  "bind_positional ps as kw acc = Inl e \<Longrightarrow> binding_error e"
  by (induction ps as kw acc rule: bind_positional.induct) (auto split: if_splits)

lemma bind_keywords_error:
  "bind_keywords ps kw acc kp = Inl e \<Longrightarrow> binding_error e"
  by (induction ps kw acc kp rule: bind_keywords.induct) (auto split: if_splits option.splits)


lemma bind_positional_rest:
  "bind_positional ps as kw acc = Inr (acc1, rest) \<Longrightarrow>
     rest = drop (length as) ps
     \<and> \<not> list_ex (\<lambda>p. dict_contains kw (pname p)) (take (length as) ps)"
proof (induction ps as kw acc rule: bind_positional.induct)
  case (1 kwargs arguments)
  then show ?case by simp
next
  case (2 p ps kwargs arguments)
  then show ?case by (simp split: if_splits)
next
  case (3 a as kwargs arguments)
  then show ?case by simp
next
  case (4 p ps a as kwargs arguments)
  from "4.prems" have nv: "pkind p \<noteq> VAR_KEYWORD" and nc: "\<not> dict_contains kwargs (pname p)"
    and b: "bind_positional ps as kwargs (AList.update (pname p) a arguments) = Inr (acc1, rest)"
    by (simp_all split: if_splits)
  from "4.IH"[OF nv nc b] nc show ?case by simp
qed

lemma bind_keywords_required:
  "bind_keywords ps kw acc kp = Inr r \<Longrightarrow> fst ` set kw \<subseteq> K \<Longrightarrow> q \<in> set ps \<Longrightarrow>
     pkind q = POSITIONAL_OR_KEYWORD \<Longrightarrow> pdefault q = None \<Longrightarrow> pname q \<in> K"
proof (induction ps kw acc kp rule: bind_keywords.induct)
  case (1 kwargs arguments kwargs_param)
  then show ?case by simp
next
  case (2 p ps kwargs arguments kwargs_param)
  show ?case
  proof (cases "pkind p = VAR_KEYWORD")
    case True
    with "2.prems"(1) have b: "bind_keywords ps kwargs arguments (Some p) = Inr r"
      by simp
    from True "2.prems"(3) "2.prems"(4) have qin: "q \<in> set ps" by auto
    from "2.IH"(1)[OF True b "2.prems"(2) qin "2.prems"(4) "2.prems"(5)]
    show ?thesis .
  next
    case False
    show ?thesis
    proof (cases "map_of kwargs (pname p)")
      case None
      with False "2.prems"(1) have d: "pdefault p \<noteq> None"
        and b: "bind_keywords ps kwargs arguments kwargs_param = Inr r"
        by (simp_all split: if_splits)
      from d "2.prems"(3) "2.prems"(5) have qin: "q \<in> set ps" by auto
      from "2.IH"(2)[OF False None d b "2.prems"(2) qin "2.prems"(4) "2.prems"(5)]
      show ?thesis .
    next
      case (Some v)
      have sub: "fst ` set (AList.delete (pname p) kwargs) \<subseteq> K"
        by (rule subset_trans[OF AList.dom_delete_subset "2.prems"(2)])
      from map_of_SomeD[OF Some] have "pname p \<in> fst ` set kwargs"
        by force
      with "2.prems"(2) have here: "pname p \<in> K" by blast
      from "2.prems"(3) consider "q = p" | "q \<in> set ps" by auto
      then show ?thesis
      proof cases
        case 1
        with here show ?thesis by simp
      next
        case 2
        note qin = this
        from "2.prems"(1) False Some
        have "bind_keywords ps (AList.delete (pname p) kwargs)
                (AList.update (pname p) v arguments) kwargs_param = Inr r"
          by simp
        from "2.IH"(3)[OF False Some this sub qin "2.prems"(4) "2.prems"(5)]
        show ?thesis .
      qed
    qed
  qed
qed

lemma bind_keywords_keeps:
  "bind_keywords ps kw acc kp = Inr (acc1, kw1, kp1) \<Longrightarrow> k \<in> fst ` set kw \<Longrightarrow>
     k \<notin> pname ` set ps \<Longrightarrow> k \<in> fst ` set kw1"
proof (induction ps kw acc kp rule: bind_keywords.induct)
  case (1 kwargs arguments kwargs_param)
  then show ?case by simp
next
  case (2 p ps kwargs arguments kwargs_param)
  have kp: "k \<noteq> pname p" and kps: "k \<notin> pname ` set ps"
    using "2.prems"(3) by auto
  show ?case
  proof (cases "pkind p = VAR_KEYWORD")
    case True
    with "2.prems"(1) have "bind_keywords ps kwargs arguments (Some p) = Inr (acc1, kw1, kp1)"
      by simp
    from "2.IH"(1)[OF True this "2.prems"(2) kps] show ?thesis .
  next
    case False
    show ?thesis
    proof (cases "map_of kwargs (pname p)")
      case None
      with False "2.prems"(1) have d: "pdefault p \<noteq> None"
        and b: "bind_keywords ps kwargs arguments kwargs_param = Inr (acc1, kw1, kp1)"
        by (auto split: if_splits)
      from "2.IH"(2)[OF False None d b "2.prems"(2) kps] show ?thesis .
    next
      case (Some v)
      with False "2.prems"(1)
      have b: "bind_keywords ps (AList.delete (pname p) kwargs)
                 (AList.update (pname p) v arguments) kwargs_param = Inr (acc1, kw1, kp1)"
        by simp
      have "k \<in> fst ` set (AList.delete (pname p) kwargs)"
        using "2.prems"(2) kp by (simp add: dict_contains_iff[symmetric] dict_contains_delete)
      from "2.IH"(3)[OF False Some b this kps] show ?thesis .
    qed
  qed
qed

lemma bind_keywords_no_capture:
  "bind_keywords ps kw acc kp = Inr (acc1, kw1, kp1) \<Longrightarrow> kp = None \<Longrightarrow>
     \<not> list_ex (\<lambda>p. pkind p = VAR_KEYWORD) ps \<Longrightarrow> kp1 = None"
proof (induction ps kw acc kp rule: bind_keywords.induct)
  case (1 kwargs arguments kwargs_param)
  then show ?case by simp
next
  case (2 p ps kwargs arguments kwargs_param)
  have nv: "pkind p \<noteq> VAR_KEYWORD" and nvs: "\<not> list_ex (\<lambda>p. pkind p = VAR_KEYWORD) ps"
    using "2.prems"(3) by auto
  show ?case
  proof (cases "map_of kwargs (pname p)")
    case None
    with nv "2.prems"(1) have d: "pdefault p \<noteq> None"
      and b: "bind_keywords ps kwargs arguments kwargs_param = Inr (acc1, kw1, kp1)"
      by (auto split: if_splits)
    from "2.IH"(2)[OF nv None d b "2.prems"(2) nvs] show ?thesis .
  next
    case (Some v)
    with nv "2.prems"(1)
    have b: "bind_keywords ps (AList.delete (pname p) kwargs)
               (AList.update (pname p) v arguments) kwargs_param = Inr (acc1, kw1, kp1)"
      by simp
    from "2.IH"(3)[OF nv Some b "2.prems"(2) nvs] show ?thesis .
  qed
qed


lemma bind_error:
  assumes "bind sg as kw = Inl e"
  shows "binding_error e"
proof (cases "bind_positional sg as kw []")
  case (Inl e1)
  with assms have "e = e1" by (simp add: bind_def)
  with bind_positional_error[OF Inl] show ?thesis by simp
next
  case (Inr r)
  obtain acc rest where r: "r = (acc, rest)" by (cases r)
  show ?thesis
  proof (cases "bind_keywords rest kw acc None")
    case (Inl e2)
    with assms Inr r have "e = e2" by (simp add: bind_def)
    with bind_keywords_error[OF Inl] show ?thesis by simp
  next
    case Inr2: (Inr r2)
    obtain acc1 kw1 kp1 where r2: "r2 = (acc1, kw1, kp1)" by (cases r2)
    from assms Inr r Inr2 r2 obtain k where "e = TypeError (UnexpectedKeyword k)"
      by (auto simp: bind_def split: list.splits option.splits)
    then show ?thesis by simp
  qed
qed

lemma bind_success_conditions:
  assumes "bind sg as kw = Inr r"
  shows "\<not> missing_required sg as kw \<and> \<not> duplicate_binding sg as kw
       \<and> \<not> unrecognized_keyword sg kw"
proof -
  from assms obtain acc rest where pos: "bind_positional sg as kw [] = Inr (acc, rest)"
    by (auto simp: bind_def split: sum.splits)
  with assms obtain acc1 kw1 kp1 where
    key: "bind_keywords rest kw acc None = Inr (acc1, kw1, kp1)"
    by (auto simp: bind_def split: sum.splits)
  from assms pos key have fin: "kw1 = [] \<or> kp1 \<noteq> None"
    by (auto simp: bind_def split: list.splits option.splits)
  from bind_positional_rest[OF pos]
  have rest: "rest = drop (length as) sg"
    and nodup: "\<not> list_ex (\<lambda>p. dict_contains kw (pname p)) (take (length as) sg)"
    by simp_all
  have a: "\<not> missing_required sg as kw"
  proof
    assume "missing_required sg as kw"
    then obtain q where q: "q \<in> set rest" "pkind q = POSITIONAL_OR_KEYWORD"
      "pdefault q = None" "\<not> dict_contains kw (pname q)"
      by (auto simp: missing_required_def rest list_ex_iff)
    from bind_keywords_required[OF key subset_refl q(1) q(2) q(3)] q(4)
    show False by (simp add: dict_contains_iff)
  qed
  have b: "\<not> duplicate_binding sg as kw"
    using nodup by (simp add: duplicate_binding_def)
  have c: "\<not> unrecognized_keyword sg kw"
  proof
    assume u: "unrecognized_keyword sg kw"
    then have "filter (\<lambda>p. pkind p = VAR_KEYWORD) sg = []"
      by (simp add: unrecognized_keyword_def get_var_kw_arg_def split: list.splits)
    then have "\<forall>p \<in> set sg. pkind p \<noteq> VAR_KEYWORD"
      by (simp add: filter_empty_conv)
    moreover have "set rest \<subseteq> set sg" unfolding rest by (rule set_drop_subset)
    ultimately have "\<not> list_ex (\<lambda>p. pkind p = VAR_KEYWORD) rest"
      by (auto simp: list_ex_iff)
    from bind_keywords_no_capture[OF key refl this] have kp1: "kp1 = None" .
    from u obtain k where k: "k \<in> fst ` set kw" "k \<notin> pname ` set sg"
      by (force simp: unrecognized_keyword_def list_ex_iff)
    with \<open>set rest \<subseteq> set sg\<close> have "k \<notin> pname ` set rest" by auto
    from bind_keywords_keeps[OF key k(1) this] have "kw1 \<noteq> []" by auto
    with fin kp1 show False by simp
  qed
  from a b c show ?thesis by simp
qed


text \<open>
  C1.  A call whose arguments cannot be bound to the parameters of the work function (a
  parameter without default, other than the capture parameter, receives no value; a
  parameter receives both a positional and a keyword value; or a keyword names no
  parameter and there is no capture parameter) fails with the error of the binding, the
  \<open>TypeError\<close> that \<open>inspect.Signature.bind\<close> raises, and with nothing else.  The call
  returns the error before any flow is looked up or created and before
  \<open>set_dependencies\<close> is reached, whatever \<open>set_dependencies\<close> is.
\<close>

theorem call_binding_error:
  assumes "inspect_signature (run_decl (cls (objs w ! a))) = Inr sg"
    and "missing_required sg args kwargs \<or> duplicate_binding sg args kwargs
         \<or> unrecognized_keyword sg kwargs"
  shows "\<exists>e. call set_dependencies w a args kwargs = Inl e \<and> binding_error e"
proof (cases "bind sg args kwargs")
  case (Inl e)
  with assms(1) have "call set_dependencies w a args kwargs = Inl e"
    by (simp add: call_def call_bind_def)
  with bind_error[OF Inl] show ?thesis by blast
next
  case (Inr r)
  from bind_success_conditions[OF Inr] assms(2) show ?thesis by blast
qed

lemmas xyc_defs = example_defs XYC_class_def Let_def call_def call_bind_def bind_def
  dict_contains_def

text \<open>
  The work function \<open>run(self, x, y, c=None)\<close> called as \<open>task(5, 7, z=9)\<close>, as \<open>task(5)\<close>
  and as \<open>task(5, 7, x=1)\<close>.
\<close>

theorem call_binding_error_witness:
  "inspect_signature (run_decl (cls (objs (world1 XYC_class) ! 0))) = Inr (tl (run_decl XYC_class))
   \<and> unrecognized_keyword (tl (run_decl XYC_class)) [(''z'', PInt 9)]
   \<and> call spec_set_dependencies (world1 XYC_class) 0 [PInt 5, PInt 7] [(''z'', PInt 9)]
       = Inl (TypeError (UnexpectedKeyword ''z''))
   \<and> missing_required (tl (run_decl XYC_class)) [PInt 5] []
   \<and> call spec_set_dependencies (world1 XYC_class) 0 [PInt 5] []
       = Inl (TypeError (MissingRequired ''y''))
   \<and> duplicate_binding (tl (run_decl XYC_class)) [PInt 5, PInt 7] [(''x'', PInt 1)]
   \<and> call spec_set_dependencies (world1 XYC_class) 0 [PInt 5, PInt 7] [(''x'', PInt 1)]
       = Inl (TypeError (MultipleValues ''x''))"
  using call_binding_error [of "world1 XYC_class" 0 "tl (run_decl XYC_class)"
      "[PInt 5, PInt 7]" "[(''z'', PInt 9)]" spec_set_dependencies]
  by (simp add: xyc_defs unrecognized_keyword_def missing_required_def duplicate_binding_def
        get_var_kw_arg_def)

lemma pyval_size_in_dict: "(k, v) \<in> set cap \<Longrightarrow> size v < size (PDict cap)"
  by (induction cap) auto

lemma update_set_subset: "set (AList.update k v al) \<subseteq> insert (k, v) (set al)"
  by (induction al) auto

lemma dict_update_set_subset: "set (dict_update d e) \<subseteq> set d \<union> set e"
proof (induction d e rule: dict_update.induct)
  case (1 d)
  then show ?case by simp
next
  case (2 d k v e)
  have "set (dict_update (AList.update k v d) e) \<subseteq> set (AList.update k v d) \<union> set e"
    by (rule "2.IH")
  also have "\<dots> \<subseteq> insert (k, v) (set d) \<union> set e"
    using update_set_subset[of k v d] by blast
  finally show ?case by auto
qed

lemma map_of_dict_update_in:
  "distinct (map fst e) \<Longrightarrow> (k, v) \<in> set e \<Longrightarrow> map_of (dict_update d e) k = Some v"
proof (induction d e rule: dict_update.induct)
  case (1 d)
  then show ?case by simp
next
  case (2 d k' v' e)
  from "2.prems"(1) have dist: "distinct (map fst e)" and notin: "k' \<notin> fst ` set e"
    by simp_all
  from "2.prems"(2) consider "(k, v) = (k', v')" | "(k, v) \<in> set e" by auto
  then show ?case
  proof cases
    case 1
    then have "map_of (dict_update (AList.update k' v' d) e) k = map_of (AList.update k' v' d) k"
      using notin by (simp add: map_of_dict_update_notin)
    with 1 show ?thesis by (simp add: AList.update_conv')
  next
    case 2
    from "2.IH"[OF dist 2] show ?thesis by simp
  qed
qed

lemma map_of_dict_update_eq:
  "distinct (map fst e) \<Longrightarrow> map_of (dict_update d e) k = (case map_of e k of None \<Rightarrow> map_of d k | Some v \<Rightarrow> Some v)"
proof (cases "map_of e k")
  case None
  assume "distinct (map fst e)"
  from None have "k \<notin> fst ` set e" by (simp add: map_of_eq_None_iff)
  with None show ?thesis by (simp add: map_of_dict_update_notin)
next
  case (Some v)
  assume d: "distinct (map fst e)"
  from map_of_SomeD[OF Some] have "(k, v) \<in> set e" .
  from map_of_dict_update_in[OF d this] Some show ?thesis by simp
qed

lemma named_params_Cons:
  "pkind p \<noteq> VAR_KEYWORD \<Longrightarrow> named_params (p # ps) = insert (pname p) (named_params ps)"
  "pkind p = VAR_KEYWORD \<Longrightarrow> named_params (p # ps) = named_params ps"
  by (simp_all add: named_params_def)

lemma update_keys_subset:
  "k \<in> K \<Longrightarrow> fst ` set al \<subseteq> K \<Longrightarrow> fst ` set (AList.update k v al) \<subseteq> K"
  by (simp add: AList.dom_update)

lemma bind_positional_keys:
  "bind_positional ps as kw acc = Inr (acc1, rest) \<Longrightarrow> fst ` set acc \<subseteq> K \<Longrightarrow>
     named_params ps \<subseteq> K \<Longrightarrow> fst ` set acc1 \<subseteq> K"
proof (induction ps as kw acc rule: bind_positional.induct)
  case (1 kwargs arguments)
  then show ?case by simp
next
  case (2 p ps kwargs arguments)
  from "2.prems"(1) have "acc1 = arguments" by (simp split: if_splits)
  with "2.prems"(2) show ?case by simp
next
  case (3 a as kwargs arguments)
  then show ?case by simp
next
  case (4 p ps a as kwargs arguments)
  from "4.prems"(1) have nv: "pkind p \<noteq> VAR_KEYWORD"
    and nc: "\<not> dict_contains kwargs (pname p)"
    and b: "bind_positional ps as kwargs (AList.update (pname p) a arguments) = Inr (acc1, rest)"
    by (simp_all split: if_splits)
  from "4.prems"(3) nv have inK: "pname p \<in> K" and sub: "named_params ps \<subseteq> K"
    by (simp_all add: named_params_Cons)
  from "4.IH"[OF nv nc b update_keys_subset[OF inK "4.prems"(2)] sub] show ?case .
qed

lemma bind_keywords_keys:
  "bind_keywords ps kw acc kp = Inr (acc1, kw1, kp1) \<Longrightarrow> fst ` set acc \<subseteq> K \<Longrightarrow>
     named_params ps \<subseteq> K \<Longrightarrow> fst ` set acc1 \<subseteq> K"
proof (induction ps kw acc kp rule: bind_keywords.induct)
  case (1 kwargs arguments kwargs_param)
  then show ?case by simp
next
  case (2 p ps kwargs arguments kwargs_param)
  show ?case
  proof (cases "pkind p = VAR_KEYWORD")
    case True
    with "2.prems"(1) have b: "bind_keywords ps kwargs arguments (Some p) = Inr (acc1, kw1, kp1)"
      by simp
    from "2.prems"(3) True have sub: "named_params ps \<subseteq> K"
      by (simp add: named_params_Cons)
    from "2.IH"(1)[OF True b "2.prems"(2) sub] show ?thesis .
  next
    case False
    from "2.prems"(3) False have inK: "pname p \<in> K" and sub: "named_params ps \<subseteq> K"
      by (simp_all add: named_params_Cons)
    show ?thesis
    proof (cases "map_of kwargs (pname p)")
      case None
      with False "2.prems"(1) have d: "pdefault p \<noteq> None"
        and b: "bind_keywords ps kwargs arguments kwargs_param = Inr (acc1, kw1, kp1)"
        by (simp_all split: if_splits)
      from "2.IH"(2)[OF False None d b "2.prems"(2) sub] show ?thesis .
    next
      case (Some v)
      with False "2.prems"(1)
      have b: "bind_keywords ps (AList.delete (pname p) kwargs)
                 (AList.update (pname p) v arguments) kwargs_param = Inr (acc1, kw1, kp1)"
        by simp
      from "2.IH"(3)[OF False Some b update_keys_subset[OF inK "2.prems"(2)] sub]
      show ?thesis .
    qed
  qed
qed

lemma delete_set_subset: "set (AList.delete k al) \<subseteq> set al"
  by (simp add: AList.delete_eq)

lemma bind_keywords_left:
  "bind_keywords ps kw acc kp = Inr (acc1, kw1, kp1) \<Longrightarrow> distinct (map fst kw) \<Longrightarrow>
     set kw1 \<subseteq> set kw \<and> distinct (map fst kw1)"
proof (induction ps kw acc kp rule: bind_keywords.induct)
  case (1 kwargs arguments kwargs_param)
  then show ?case by simp
next
  case (2 p ps kwargs arguments kwargs_param)
  show ?case
  proof (cases "pkind p = VAR_KEYWORD")
    case True
    with "2.prems"(1) have "bind_keywords ps kwargs arguments (Some p) = Inr (acc1, kw1, kp1)"
      by simp
    from "2.IH"(1)[OF True this "2.prems"(2)] show ?thesis .
  next
    case False
    show ?thesis
    proof (cases "map_of kwargs (pname p)")
      case None
      with False "2.prems"(1) have d: "pdefault p \<noteq> None"
        and b: "bind_keywords ps kwargs arguments kwargs_param = Inr (acc1, kw1, kp1)"
        by (simp_all split: if_splits)
      from "2.IH"(2)[OF False None d b "2.prems"(2)] show ?thesis .
    next
      case (Some v)
      with False "2.prems"(1)
      have b: "bind_keywords ps (AList.delete (pname p) kwargs)
                 (AList.update (pname p) v arguments) kwargs_param = Inr (acc1, kw1, kp1)"
        by simp
      have "distinct (map fst (AList.delete (pname p) kwargs))"
        using "2.prems"(2) by (rule AList.distinct_delete)
      from "2.IH"(3)[OF False Some b this] delete_set_subset[of "pname p" kwargs]
      show ?thesis by blast
    qed
  qed
qed

lemma bind_keywords_capture:
  "bind_keywords ps kw acc kp = Inr (acc1, kw1, kp1) \<Longrightarrow>
     kp1 = kp \<or> (\<exists>p \<in> set ps. pkind p = VAR_KEYWORD \<and> kp1 = Some p)"
proof (induction ps kw acc kp rule: bind_keywords.induct)
  case (1 kwargs arguments kwargs_param)
  then show ?case by simp
next
  case (2 p ps kwargs arguments kwargs_param)
  show ?case
  proof (cases "pkind p = VAR_KEYWORD")
    case True
    with "2.prems"(1) have "bind_keywords ps kwargs arguments (Some p) = Inr (acc1, kw1, kp1)"
      by simp
    from "2.IH"(1)[OF True this] have "kp1 = Some p \<or> (\<exists>q \<in> set ps. pkind q = VAR_KEYWORD \<and> kp1 = Some q)" .
    with True show ?thesis by simp
  next
    case False
    show ?thesis
    proof (cases "map_of kwargs (pname p)")
      case None
      with False "2.prems"(1) have d: "pdefault p \<noteq> None"
        and b: "bind_keywords ps kwargs arguments kwargs_param = Inr (acc1, kw1, kp1)"
        by (simp_all split: if_splits)
      from "2.IH"(2)[OF False None d b] show ?thesis by auto
    next
      case (Some v)
      with False "2.prems"(1)
      have b: "bind_keywords ps (AList.delete (pname p) kwargs)
                 (AList.update (pname p) v arguments) kwargs_param = Inr (acc1, kw1, kp1)"
        by simp
      from "2.IH"(3)[OF False Some b] show ?thesis by auto
    qed
  qed
qed


lemma named_params_drop: "named_params (drop n ps) \<subseteq> named_params ps"
  by (auto simp: named_params_def dest: in_set_dropD)

lemma var_kw_unique:
  assumes "wf_signature sg" and "get_var_kw_arg sg = Some vk"
  shows "\<exists>kwp. filter (\<lambda>p. pkind p = VAR_KEYWORD) sg = [kwp] \<and> pname kwp = vk"
proof (cases "filter (\<lambda>p. pkind p = VAR_KEYWORD) sg")
  case Nil
  with assms(2) show ?thesis by (simp add: get_var_kw_arg_def)
next
  case (Cons p ps)
  with assms(1) have "ps = []" by (simp add: wf_signature_def)
  with Cons assms(2) show ?thesis by (simp add: get_var_kw_arg_def)
qed

lemma var_kw_not_named:
  assumes "wf_signature sg" and "get_var_kw_arg sg = Some vk"
  shows "vk \<notin> named_params sg"
proof
  assume "vk \<in> named_params sg"
  then obtain q where q: "q \<in> set sg" "pkind q \<noteq> VAR_KEYWORD" "pname q = vk"
    by (auto simp: named_params_def)
  from var_kw_unique[OF assms] obtain kwp where
    f: "filter (\<lambda>p. pkind p = VAR_KEYWORD) sg = [kwp]" and n: "pname kwp = vk"
    by blast
  from f have "kwp \<in> set (filter (\<lambda>p. pkind p = VAR_KEYWORD) sg)" by simp
  then have k: "kwp \<in> set sg" "pkind kwp = VAR_KEYWORD" by simp_all
  from assms(1) have "inj_on pname (set sg)"
    by (simp add: wf_signature_def distinct_map)
  from inj_onD[OF this _ q(1) k(1)] q(3) n have "q = kwp" by simp
  with q(2) k(2) show False by simp
qed

lemma bind_capture_shape:
  assumes b: "bind sg as kw = Inr arguments"
    and wf: "wf_signature sg"
    and dk: "distinct (map fst kw)"
    and g: "get_var_kw_arg sg = Some vk"
  shows "map_of arguments vk = None
       \<or> (\<exists>cap. map_of arguments vk = Some (PDict cap) \<and> distinct (map fst cap)
                 \<and> set cap \<subseteq> set kw)"
proof -
  from b obtain acc rest where pos: "bind_positional sg as kw [] = Inr (acc, rest)"
    by (auto simp: bind_def split: sum.splits)
  with b obtain acc1 kw1 kp1 where
    key: "bind_keywords rest kw acc None = Inr (acc1, kw1, kp1)"
    by (auto simp: bind_def split: sum.splits)
  from bind_positional_rest[OF pos] have rest: "rest = drop (length as) sg" by simp
  have k0: "fst ` set acc \<subseteq> named_params sg"
    by (rule bind_positional_keys[OF pos]) simp_all
  have "named_params rest \<subseteq> named_params sg"
    unfolding rest by (rule named_params_drop)
  from bind_keywords_keys[OF key k0 this] have k1: "fst ` set acc1 \<subseteq> named_params sg" .
  with var_kw_not_named[OF wf g] have "vk \<notin> fst ` set acc1" by blast
  then have none: "map_of acc1 vk = None" by (simp add: map_of_eq_None_iff)
  show ?thesis
  proof (cases kw1)
    case Nil
    with b pos key have "arguments = acc1" by (simp add: bind_def)
    with none show ?thesis by simp
  next
    case (Cons e es)
    with b pos key obtain kp where kp: "kp1 = Some kp"
      and a: "arguments = AList.update (pname kp) (PDict kw1) acc1"
      by (auto simp: bind_def split: option.splits prod.splits)
    from bind_keywords_capture[OF key] kp
    have "kp \<in> set rest" "pkind kp = VAR_KEYWORD" by auto
    moreover have "set rest \<subseteq> set sg" unfolding rest by (rule set_drop_subset)
    ultimately have inf: "kp \<in> set (filter (\<lambda>p. pkind p = VAR_KEYWORD) sg)" by auto
    from var_kw_unique[OF wf g] obtain kwp where
      f: "filter (\<lambda>p. pkind p = VAR_KEYWORD) sg = [kwp]" and n: "pname kwp = vk"
      by blast
    from inf have "kp = kwp" unfolding f by simp
    with n have "pname kp = vk" by simp
    with a have "map_of arguments vk = Some (PDict kw1)"
      by (simp add: AList.update_conv')
    with bind_keywords_left[OF key dk] show ?thesis by blast
  qed
qed


lemma flatten_captured:
  assumes dist: "distinct (map fst cap)"
    and final: "final = dict_update (AList.delete vk arguments) cap"
  shows "(\<forall>(k, v) \<in> set cap. map_of final k = Some v)
       \<and> (vk, PDict cap) \<notin> set final
       \<and> map_of final vk = map_of cap vk
       \<and> (\<forall>k. k \<noteq> vk \<and> k \<notin> fst ` set cap \<longrightarrow> map_of final k = map_of arguments k)"
proof -
  have p1: "\<forall>(k, v) \<in> set cap. map_of final k = Some v"
    using map_of_dict_update_in[OF dist] by (auto simp: final)
  have p2: "(vk, PDict cap) \<notin> set final"
  proof
    assume "(vk, PDict cap) \<in> set final"
    with dict_update_set_subset[of "AList.delete vk arguments" cap]
    consider "(vk, PDict cap) \<in> set (AList.delete vk arguments)" | "(vk, PDict cap) \<in> set cap"
      by (auto simp: final)
    then show False
    proof cases
      case 1
      then have "vk \<in> fst ` set (AList.delete vk arguments)" by force
      with AList.delete_notin_dom[of vk arguments] show False by simp
    next
      case 2
      from pyval_size_in_dict[OF 2] show False by simp
    qed
  qed
  have p3: "map_of final vk = map_of cap vk"
    by (simp add: final map_of_dict_update_eq[OF dist] AList.delete_conv' split: option.splits)
  have p4: "\<forall>k. k \<noteq> vk \<and> k \<notin> fst ` set cap \<longrightarrow> map_of final k = map_of arguments k"
    by (simp add: final map_of_dict_update_notin)
  from p1 p2 p3 p4 show ?thesis by blast
qed

text \<open>
  C9.  For a call whose arguments bind, with a signature as Python makes them and
  keyword arguments of distinct names: when the work function has no capture parameter,
  the flattening step leaves the binding map as it is.  When it has one, named \<open>vk\<close>,
  the entries \<open>cap\<close> that the binding has accumulated under it (none, when no keyword
  was captured) are keyword arguments of the call, each entry of \<open>cap\<close> is an entry of
  its own in the final map handed to the flow, and the entry of the capture parameter,
  \<open>vk\<close> with the dictionary \<open>cap\<close>, is not in that map: under \<open>vk\<close> the final map has what
  \<open>cap\<close> has under \<open>vk\<close> (nothing, unless a keyword argument was itself named \<open>vk\<close>), and
  the other entries are those of the binding.
\<close>

theorem capture_flattened:
  assumes sig: "inspect_signature (run_decl (cls t)) = Inr sg"
    and wf: "wf_signature sg"
    and dk: "distinct (map fst kwargs)"
    and b: "bind sg args kwargs = Inr arguments"
  shows "(get_var_kw_arg sg = None \<longrightarrow> call_bind t args kwargs = Inr arguments)
       \<and> (\<forall>vk. get_var_kw_arg sg = Some vk \<longrightarrow>
            (\<exists>cap final. dict_get arguments vk (PDict []) = PDict cap
               \<and> set cap \<subseteq> set kwargs
               \<and> call_bind t args kwargs = Inr final
               \<and> (\<forall>(k, v) \<in> set cap. map_of final k = Some v)
               \<and> (vk, PDict cap) \<notin> set final
               \<and> map_of final vk = map_of cap vk
               \<and> (\<forall>k. k \<noteq> vk \<and> k \<notin> fst ` set cap \<longrightarrow>
                      map_of final k = map_of arguments k)))"
proof (intro conjI impI allI)
  assume "get_var_kw_arg sg = None"
  with sig b show "call_bind t args kwargs = Inr arguments"
    by (simp add: call_bind_def dict_pop_def)
next
  fix vk
  assume g: "get_var_kw_arg sg = Some vk"
  from bind_capture_shape[OF b wf dk g]
  consider (none) "map_of arguments vk = None"
    | (some) cap where "map_of arguments vk = Some (PDict cap)" "distinct (map fst cap)"
        "set cap \<subseteq> set kwargs"
    by auto
  then show "\<exists>cap final. dict_get arguments vk (PDict []) = PDict cap
               \<and> set cap \<subseteq> set kwargs
               \<and> call_bind t args kwargs = Inr final
               \<and> (\<forall>(k, v) \<in> set cap. map_of final k = Some v)
               \<and> (vk, PDict cap) \<notin> set final
               \<and> map_of final vk = map_of cap vk
               \<and> (\<forall>k. k \<noteq> vk \<and> k \<notin> fst ` set cap \<longrightarrow>
                      map_of final k = map_of arguments k)"
  proof cases
    case none
    have c1: "dict_get arguments vk (PDict []) = PDict []"
      using none by (simp add: dict_get_def)
    have c2: "call_bind t args kwargs = Inr arguments"
      using sig b g none by (simp add: call_bind_def dict_pop_def)
    from none have "vk \<notin> fst ` set arguments" by (simp add: map_of_eq_None_iff)
    then have c3: "(vk, PDict []) \<notin> set arguments" by force
    have c4: "map_of arguments vk = map_of [] vk" using none by simp
    from c1 c2 c3 c4 show ?thesis by (intro exI[of _ "[]"] exI[of _ arguments]) simp
  next
    case some
    define final where "final = dict_update (AList.delete vk arguments) cap"
    have c1: "dict_get arguments vk (PDict []) = PDict cap"
      using some(1) by (simp add: dict_get_def)
    have c2: "call_bind t args kwargs = Inr final"
      using sig b g some(1) by (simp add: call_bind_def dict_pop_def final_def)
    from flatten_captured[OF some(2) final_def] c1 c2 some(3)
    show ?thesis by (intro exI[of _ cap] exI[of _ final]) simp
  qed
qed

lemmas kw_defs = example_defs XKw_class_def Let_def call_bind_def bind_def
  dict_contains_def get_var_kw_arg_def dict_pop_def wf_signature_def

text \<open>The work function \<open>run(self, x, **kwargs)\<close> called as \<open>task(1, a=2, b=3)\<close>.\<close>

theorem capture_flattened_witness:
  "inspect_signature (run_decl (cls (objs (world1 XKw_class) ! 0))) = Inr (tl (run_decl XKw_class))
   \<and> wf_signature (tl (run_decl XKw_class))
   \<and> distinct (map fst [(''a'', PInt 2), (''b'', PInt 3)])
   \<and> bind (tl (run_decl XKw_class)) [PInt 1] [(''a'', PInt 2), (''b'', PInt 3)]
       = Inr [(''x'', PInt 1), (''kwargs'', PDict [(''a'', PInt 2), (''b'', PInt 3)])]
   \<and> get_var_kw_arg (tl (run_decl XKw_class)) = Some ''kwargs''
   \<and> call_bind (objs (world1 XKw_class) ! 0) [PInt 1] [(''a'', PInt 2), (''b'', PInt 3)]
       = Inr [(''x'', PInt 1), (''a'', PInt 2), (''b'', PInt 3)]"
  using capture_flattened [of "objs (world1 XKw_class) ! 0" "tl (run_decl XKw_class)"
      "[(''a'', PInt 2), (''b'', PInt 3)]" "[PInt 1]"
      "[(''x'', PInt 1), (''kwargs'', PDict [(''a'', PInt 2), (''b'', PInt 3)])]"]
  by (simp add: kw_defs)

section \<open>Properties of the resolution of the flow\<close>



end
